theory Spec2Isabelle
  imports Main "HOL-Library.Word" "HOL-Library.Signed_Division"
begin

section \<open>Data model of main.cpp\<close>

text \<open>
  The program reads decoded frames with their motion vectors and prints them either
  raw or arranged on a grid of 16x16 pixel cells. C \<open>int\<close> values are modelled as
  \<open>int\<close>: every value stored in a grid is a difference of two 16-bit coordinates or
  the mean of two such values, so the 32-bit arithmetic of the source never overflows.
  C's \<open>/\<close> on \<open>int\<close> truncates towards zero; that is \<open>sdiv\<close> of the library.
  \<open>size_t\<close> is a 64-bit word, so that \<open>Shape.first - 1\<close> and the conversion of a
  negative \<open>int\<close> wrap around as they do in the source.
\<close>

type_synonym size_t = "64 word"

datatype error = OutOfBounds

text \<open>The four fields of libavutil's \<open>AVMotionVector\<close> that the program reads
  (16-bit signed in the library).\<close>

record AVMotionVector =
  src_x :: int
  src_y :: int
  dst_x :: int
  dst_y :: int

definition GRID_STEP :: int where
  "GRID_STEP = 16"

definition MAX_GRID_SIZE :: nat where
  "MAX_GRID_SIZE = 512"

text \<open>\<open>struct FrameInfo\<close>. The three arrays have \<open>MAX_GRID_SIZE\<close> rows and columns;
  they are functions of the two indices here, and every access checks the indices
  against \<open>MAX_GRID_SIZE\<close> (an access outside the array is the error \<open>OutOfBounds\<close>).\<close>

record FrameInfo =
  dx :: "nat \<Rightarrow> nat \<Rightarrow> int"
  dy :: "nat \<Rightarrow> nat \<Rightarrow> int"
  occupancy :: "nat \<Rightarrow> nat \<Rightarrow> bool"
  Pts :: int
  FrameIndex :: int
  PictType :: char
  Shape :: "size_t \<times> size_t"
  Empty :: bool

text \<open>The constructor \<open>FrameInfo()\<close> (lines 171-177) followed by the four assignments
  of lines 232-235.\<close>

definition grid_shape :: "int \<Rightarrow> int \<Rightarrow> size_t \<times> size_t" where
  "grid_shape frameWidth frameHeight =
     (of_int (min (frameHeight sdiv GRID_STEP) (int MAX_GRID_SIZE)),
      of_int (min (frameWidth sdiv GRID_STEP) (int MAX_GRID_SIZE)))"

definition new_FrameInfo :: "int \<Rightarrow> int \<Rightarrow> char \<Rightarrow> int \<Rightarrow> int \<Rightarrow> FrameInfo" where
  "new_FrameInfo frameIndex pts pictType frameWidth frameHeight =
     \<lparr> dx = (\<lambda>i j. 0), dy = (\<lambda>i j. 0), occupancy = (\<lambda>i j. False),
       Pts = pts, FrameIndex = frameIndex, PictType = pictType,
       Shape = grid_shape frameWidth frameHeight, Empty = True \<rparr>"

definition in_array :: "nat \<Rightarrow> nat \<Rightarrow> bool" where
  "in_array i j \<longleftrightarrow> i < MAX_GRID_SIZE \<and> j < MAX_GRID_SIZE"

definition store :: "(nat \<Rightarrow> nat \<Rightarrow> 'a) \<Rightarrow> nat \<Rightarrow> nat \<Rightarrow> 'a \<Rightarrow> (nat \<Rightarrow> nat \<Rightarrow> 'a)" where
  "store a i j v = a(i := (a i)(j := v))"

text \<open>A \<open>for\<close> loop whose body may fail: the first error ends the run.\<close>

fun for_each :: "'a list \<Rightarrow> ('a \<Rightarrow> 's \<Rightarrow> error + 's) \<Rightarrow> 's \<Rightarrow> error + 's" where
  "for_each [] body s = Inr s"
| "for_each (x # xs) body s =
     (case body x s of Inl e \<Rightarrow> Inl e | Inr s' \<Rightarrow> for_each xs body s')"

subsection \<open>FrameInfo::InterpolateFlow (lines 179-190)\<close>

definition interpolate_cell :: "FrameInfo \<Rightarrow> FrameInfo \<Rightarrow> nat \<Rightarrow> nat \<Rightarrow> FrameInfo \<Rightarrow> error + FrameInfo" where
  "interpolate_cell prev nxt i j this =
     (if in_array i j
      then Inr (this\<lparr> dx := store (dx this) i j ((dx prev i j + dx nxt i j) sdiv 2),
                      dy := store (dy this) i j ((dy prev i j + dy nxt i j) sdiv 2) \<rparr>)
      else Inl OutOfBounds)"

definition InterpolateFlow :: "FrameInfo \<Rightarrow> FrameInfo \<Rightarrow> FrameInfo \<Rightarrow> error + FrameInfo" where
  "InterpolateFlow this prev nxt =
     for_each [0 ..< unat (fst (Shape this))]
       (\<lambda>i. for_each [0 ..< unat (snd (Shape this))] (\<lambda>j. interpolate_cell prev nxt i j))
       (this\<lparr> Empty := False \<rparr>)"

subsection \<open>The aggregation loop of output_vectors_std (lines 237-252)\<close>

text \<open>Lines 243-246 for one coordinate: the quotient is converted to \<open>size_t\<close> and
  clipped with \<open>max(size_t(0), min(q, n - 1))\<close>, all in unsigned arithmetic.\<close>

definition clip_index :: "int \<Rightarrow> size_t \<Rightarrow> size_t" where
  "clip_index s n = max 0 (min (of_int (s sdiv GRID_STEP)) (n - 1))"

definition target_cell :: "size_t \<times> size_t \<Rightarrow> AVMotionVector \<Rightarrow> nat \<times> nat" where
  "target_cell shape mv =
     (unat (clip_index (src_y mv) (fst shape)), unat (clip_index (src_x mv) (snd shape)))"

definition assign_vector :: "AVMotionVector \<Rightarrow> FrameInfo \<Rightarrow> error + FrameInfo" where
  "assign_vector mv cur =
     (let mvdx = src_x mv - dst_x mv;
          mvdy = src_y mv - dst_y mv;
          i_clipped = fst (target_cell (Shape cur) mv);
          j_clipped = snd (target_cell (Shape cur) mv)
      in if in_array i_clipped j_clipped
         then Inr (cur\<lparr> Empty := False,
                        dx := store (dx cur) i_clipped j_clipped mvdx,
                        dy := store (dy cur) i_clipped j_clipped mvdy,
                        occupancy := store (occupancy cur) i_clipped j_clipped False \<rparr>)
         else Inl OutOfBounds)"

definition aggregate :: "int \<Rightarrow> int \<Rightarrow> char \<Rightarrow> AVMotionVector list \<Rightarrow> int \<Rightarrow> int \<Rightarrow> error + FrameInfo" where
  "aggregate frameIndex pts pictType motionVectors frameWidth frameHeight =
     for_each motionVectors assign_vector
       (new_FrameInfo frameIndex pts pictType frameWidth frameHeight)"

subsection \<open>The buffer logic of output_vectors_std (lines 254-277)\<close>

text \<open>The static vector \<open>prev\<close> is passed in and returned. The output is the list of
  the frames on which \<open>Print()\<close> is called, each as it is at the moment of the call.\<close>

definition emit_pending :: "FrameInfo list \<Rightarrow> FrameInfo \<Rightarrow> error + FrameInfo list" where
  "emit_pending prev cur =
     (if length prev = 2 \<and> Empty (hd prev) = False
      then (case InterpolateFlow (last prev) (hd prev) cur of
              Inl e \<Rightarrow> Inl e
            | Inr gap \<Rightarrow> Inr [gap])
      else Inr prev)"

definition output_vectors_std ::
  "FrameInfo list \<Rightarrow> int \<Rightarrow> int \<Rightarrow> char \<Rightarrow> AVMotionVector list \<Rightarrow> int \<Rightarrow> int
     \<Rightarrow> error + (FrameInfo list \<times> FrameInfo list)" where
  "output_vectors_std prev frameIndex pts pictType motionVectors frameWidth frameHeight =
     (case aggregate frameIndex pts pictType motionVectors frameWidth frameHeight of
        Inl e \<Rightarrow> Inl e
      | Inr cur \<Rightarrow>
          (case (if motionVectors \<noteq> []
                 then (case emit_pending prev cur of
                         Inl e \<Rightarrow> Inl e
                       | Inr printed \<Rightarrow> Inr (printed @ [cur], []))
                 else Inr ([], prev)) of
             Inl e \<Rightarrow> Inl e
           | Inr (out1, prev1) \<Rightarrow>
               Inr (out1 @ (if frameIndex = - 1 then prev1 else []), prev1 @ [cur])))"

subsection \<open>The frame loop of main (lines 309-317)\<close>

text \<open>What one successful \<open>read_frame\<close> leaves in \<open>pts\<close>, \<open>pictType\<close> and
  \<open>motionVectors\<close>.\<close>

type_synonym decoded = "int \<times> char \<times> AVMotionVector list"

fun frame_loop ::
  "int \<Rightarrow> int \<Rightarrow> int \<Rightarrow> decoded list \<Rightarrow> FrameInfo list
     \<Rightarrow> error + (FrameInfo list \<times> FrameInfo list)" where
  "frame_loop frameWidth frameHeight frameIndex [] prev = Inr ([], prev)"
| "frame_loop frameWidth frameHeight frameIndex ((pts, pictType, motionVectors) # fs) prev =
     (case output_vectors_std prev frameIndex pts pictType motionVectors frameWidth frameHeight of
        Inl e \<Rightarrow> Inl e
      | Inr (out, prev') \<Rightarrow>
          (case frame_loop frameWidth frameHeight (frameIndex + 1) fs prev' of
             Inl e \<Rightarrow> Inl e
           | Inr (out', prev'') \<Rightarrow> Inr (out @ out', prev'')))"

text \<open>The call of line 317 after the loop: \<open>pts\<close>, \<open>pictType\<close> and \<open>motionVectors\<close>
  still hold what the last successful \<open>read_frame\<close> stored. When no frame was read,
  \<open>motionVectors\<close> is the empty vector it was constructed as and the other two are
  whatever \<open>main\<close> started with (\<open>init\<close>).\<close>

definition end_of_stream ::
  "int \<Rightarrow> int \<Rightarrow> int \<times> char \<Rightarrow> decoded list \<Rightarrow> FrameInfo list
     \<Rightarrow> error + (FrameInfo list \<times> FrameInfo list)" where
  "end_of_stream frameWidth frameHeight init fs prev =
     (case last ((fst init, snd init, []) # fs) of
        (pts, pictType, motionVectors) \<Rightarrow>
          output_vectors_std prev (- 1) pts pictType motionVectors frameWidth frameHeight)"

definition main_std :: "int \<Rightarrow> int \<Rightarrow> int \<times> char \<Rightarrow> decoded list \<Rightarrow> error + FrameInfo list" where
  "main_std frameWidth frameHeight init fs =
     (case frame_loop frameWidth frameHeight 1 fs [] of
        Inl e \<Rightarrow> Inl e
      | Inr (out, prev) \<Rightarrow>
          (case end_of_stream frameWidth frameHeight init fs prev of
             Inl e \<Rightarrow> Inl e
           | Inr (out', prev') \<Rightarrow> Inr (out @ out')))"

subsection \<open>output_vectors_raw (lines 214-225)\<close>

text \<open>The text written to standard output. \<open>%d\<close>, \<open>%ld\<close> and \<open>%lu\<close> print decimal
  numerals.\<close>

definition newline :: char where
  "newline = CHR 0x0A"

definition tab :: char where
  "tab = CHR 0x09"

definition digit_char :: "nat \<Rightarrow> char" where
  "digit_char n = ''0123456789'' ! (n mod 10)"

function decimal :: "nat \<Rightarrow> string" where
  "decimal n = (if n < 10 then [digit_char n] else decimal (n div 10) @ [digit_char n])"
  by pat_completeness auto
termination
  by (relation "measure id") auto

definition printf_d :: "int \<Rightarrow> string" where
  "printf_d i = (if i < 0 then CHR ''-'' # decimal (nat (- i)) else decimal (nat i))"

definition raw_header :: "int \<Rightarrow> int \<Rightarrow> char \<Rightarrow> nat \<Rightarrow> string" where
  "raw_header pts frameIndex pictType n =
     ''# pts='' @ printf_d pts @ '' frame_index='' @ printf_d frameIndex
       @ '' pict_type='' @ [pictType] @ '' output_type=raw shape='' @ decimal n
       @ ''x4'' @ [newline]"

definition raw_vector_line :: "AVMotionVector \<Rightarrow> string" where
  "raw_vector_line mv =
     (let mvdx = src_x mv - dst_x mv;
          mvdy = src_y mv - dst_y mv
      in printf_d (src_x mv) @ [tab] @ printf_d (src_y mv) @ [tab]
           @ printf_d mvdx @ [tab] @ printf_d mvdy @ [newline])"

fun raw_vector_lines :: "AVMotionVector list \<Rightarrow> string" where
  "raw_vector_lines [] = []"
| "raw_vector_lines (mv # mvs) = raw_vector_line mv @ raw_vector_lines mvs"

definition output_vectors_raw :: "int \<Rightarrow> int \<Rightarrow> char \<Rightarrow> AVMotionVector list \<Rightarrow> string" where
  "output_vectors_raw frameIndex pts pictType motionVectors =
     raw_header pts frameIndex pictType (length motionVectors) @ raw_vector_lines motionVectors"

text \<open>The lines of a text: the pieces that end at each newline character.\<close>

fun lines_of :: "string \<Rightarrow> string \<Rightarrow> string list" where
  "lines_of acc [] = (if acc = [] then [] else [acc])"
| "lines_of acc (c # cs) =
     (if c = newline then acc # lines_of [] cs else lines_of (acc @ [c]) cs)"

subsection \<open>process_frame and read_packets (lines 82-130)\<close>

text \<open>\<open>AVPacket\<close> with the three fields the program uses; \<open>pkt_data\<close> is the address
  the data pointer holds. The decoder \<open>avcodec_decode_video2\<close> is external: it is the
  parameter \<open>decode\<close>, which maps the decoder's state (the frame it fills included) and
  the packet to the return value, \<open>got_frame\<close> and the new state. The container is the
  list of the packets \<open>av_read_frame\<close> has still to deliver; at its end the call
  returns a non-zero code and leaves a blank packet.\<close>

record AVPacket =
  stream_index :: int
  pkt_data :: int
  pkt_size :: int

record reader =
  initialized :: bool
  pkt :: AVPacket
  pktCopy :: AVPacket

datatype event = Decode AVPacket | ReadFrame | FreePacket

definition process_frame ::
  "('d \<Rightarrow> AVPacket \<Rightarrow> int \<times> int \<times> 'd) \<Rightarrow> AVPacket \<Rightarrow> 'd \<Rightarrow> bool \<times> AVPacket \<times> 'd" where
  "process_frame decode p d =
     (case decode d p of
        (ret, got_frame, d') \<Rightarrow>
          if ret < 0 then (False, p, d')
          else (let ret' = min ret (pkt_size p)
                in (got_frame > 0,
                    p\<lparr> pkt_data := pkt_data p + ret', pkt_size := pkt_size p - ret' \<rparr>,
                    d')))"

definition av_free_packet :: "AVPacket \<Rightarrow> AVPacket" where
  "av_free_packet p = p\<lparr> pkt_data := 0, pkt_size := 0 \<rparr>"

definition blank_packet :: AVPacket where
  "blank_packet = \<lparr> stream_index = 0, pkt_data = 0, pkt_size = 0 \<rparr>"

definition AVERROR_EOF :: int where
  "AVERROR_EOF = - 541478725"

fun av_read_frame :: "AVPacket list \<Rightarrow> int \<times> AVPacket \<times> AVPacket list" where
  "av_read_frame [] = (AVERROR_EOF, blank_packet, [])"
| "av_read_frame (p # c) = (0, p, c)"

text \<open>The \<open>while(true)\<close> loop and the final \<open>process_frame\<close> of \<open>read_packets\<close>. The
  three static variables are the \<open>reader\<close>; the result is the return value, the reader,
  the decoder's state, the rest of the container and the calls made to the library, in
  order.\<close>

function read_packets ::
  "('d \<Rightarrow> AVPacket \<Rightarrow> int \<times> int \<times> 'd) \<Rightarrow> int \<Rightarrow> reader \<Rightarrow> 'd \<Rightarrow> AVPacket list \<Rightarrow> event list
     \<Rightarrow> bool \<times> reader \<times> 'd \<times> AVPacket list \<times> event list" where
  "read_packets decode videoStreamIndex st d c tr =
     (case (if initialized st
            then (case process_frame decode (pktCopy st) d of
                    (got, pc, d') \<Rightarrow>
                      if got then (True, st\<lparr> pktCopy := pc \<rparr>, d', tr @ [Decode (pktCopy st)])
                      else (False,
                            st\<lparr> pktCopy := pc, pkt := av_free_packet (pkt st), initialized := False \<rparr>,
                            d', tr @ [Decode (pktCopy st), FreePacket]))
            else (False, st, d, tr)) of
        (returned, st1, d1, tr1) \<Rightarrow>
          if returned then (True, st1, d1, c, tr1)
          else (case av_read_frame c of
                  (ret, p, c') \<Rightarrow>
                    if ret \<noteq> 0
                    then (case process_frame decode p d1 of
                            (got, p', d2) \<Rightarrow>
                              (got, st1\<lparr> pkt := p' \<rparr>, d2, c', tr1 @ [ReadFrame, Decode p]))
                    else if stream_index p \<noteq> videoStreamIndex
                    then read_packets decode videoStreamIndex
                           (st1\<lparr> initialized := False, pkt := av_free_packet p, pktCopy := p \<rparr>)
                           d1 c' (tr1 @ [ReadFrame, FreePacket])
                    else read_packets decode videoStreamIndex
                           (st1\<lparr> initialized := True, pkt := p, pktCopy := p \<rparr>)
                           d1 c' (tr1 @ [ReadFrame])))"
  by pat_completeness auto
termination
  apply (relation "measure (\<lambda>(decode, videoStreamIndex, st, d, c, tr). length c)")
      apply simp
  subgoal for decode videoStreamIndex st d c by (cases c) (simp_all add: AVERROR_EOF_def)
  subgoal for decode videoStreamIndex st d c by (cases c) (simp_all add: AVERROR_EOF_def)
  done

text \<open>The static variables of \<open>read_packets\<close> as the program starts (zero-initialised),
  and the library calls of a result.\<close>

definition fresh_reader :: reader where
  "fresh_reader = \<lparr> initialized = False, pkt = blank_packet, pktCopy = blank_packet \<rparr>"

definition calls_of :: "bool \<times> reader \<times> 'd \<times> AVPacket list \<times> event list \<Rightarrow> event list" where
  "calls_of r = snd (snd (snd (snd r)))"

text \<open>An example decoder: each call consumes one byte, produces no frame and records
  the packet it was given.\<close>

definition stalling_decoder :: "AVPacket list \<Rightarrow> AVPacket \<Rightarrow> int \<times> int \<times> AVPacket list" where
  "stalling_decoder fed p = (1, 0, fed @ [p])"

declare read_packets.simps [simp del]

declare decimal.simps [simp del]

subsection \<open>Closed forms of the interpolation loops\<close>

text \<open>The frame after the inner loop has run over the first \<open>m\<close> columns of row \<open>i\<close>,
  and after the outer loop has run over the first \<open>n\<close> rows.\<close>

definition interp_row :: "FrameInfo \<Rightarrow> FrameInfo \<Rightarrow> nat \<Rightarrow> nat \<Rightarrow> FrameInfo \<Rightarrow> FrameInfo" where
  "interp_row prev nxt i m g =
     g\<lparr> dx := (\<lambda>a b. if a = i \<and> b < m then (dx prev a b + dx nxt a b) sdiv 2 else dx g a b),
        dy := (\<lambda>a b. if a = i \<and> b < m then (dy prev a b + dy nxt a b) sdiv 2 else dy g a b) \<rparr>"

definition interp_rows :: "FrameInfo \<Rightarrow> FrameInfo \<Rightarrow> nat \<Rightarrow> nat \<Rightarrow> FrameInfo \<Rightarrow> FrameInfo" where
  "interp_rows prev nxt n m g =
     g\<lparr> dx := (\<lambda>a b. if a < n \<and> b < m then (dx prev a b + dx nxt a b) sdiv 2 else dx g a b),
        dy := (\<lambda>a b. if a < n \<and> b < m then (dy prev a b + dy nxt a b) sdiv 2 else dy g a b) \<rparr>"

subsection \<open>Invariant of the buffer\<close>

text \<open>A frame as the constructor and lines 232-235 leave it, with no vector assigned;
  and the invariant of the static vector \<open>prev\<close>: every buffered frame has the shape of
  the stream, and every frame after the first is such a fresh frame.\<close>

definition is_fresh :: "int \<Rightarrow> int \<Rightarrow> FrameInfo \<Rightarrow> bool" where
  "is_fresh frameWidth frameHeight f \<longleftrightarrow>
     f = new_FrameInfo (FrameIndex f) (Pts f) (PictType f) frameWidth frameHeight"

definition buffer_ok :: "int \<Rightarrow> int \<Rightarrow> FrameInfo list \<Rightarrow> bool" where
  "buffer_ok frameWidth frameHeight prev \<longleftrightarrow>
     list_all (\<lambda>f. Shape f = grid_shape frameWidth frameHeight) prev
     \<and> list_all (is_fresh frameWidth frameHeight) (tl prev)"

section \<open>Arithmetic of the grid\<close>

lemma sdiv_two: "(a :: int) sdiv 2 = a div 2 + of_bool (a < 0 \<and> odd a)"
  by (auto simp add: signed_divide_int_eq_divide_int sgn_if)

text \<open>A displacement is a difference of two 16-bit coordinates, so its absolute value is
  at most 65535. The sum of two such values fits in 32 bits, and their mean is again in
  the range: the \<open>int\<close> arithmetic of \<open>InterpolateFlow\<close> cannot overflow.\<close>

lemma interpolated_value_in_range:
  assumes "\<bar>a\<bar> \<le> 65535" and "\<bar>b\<bar> \<le> (65535 :: int)"
  shows "- (2 ^ 31) \<le> a + b" and "a + b < 2 ^ 31" and "\<bar>(a + b) sdiv 2\<bar> \<le> 65535"
proof -
  show "- (2 ^ 31) \<le> a + b" and "a + b < 2 ^ 31"
    using assms by simp_all
  have "\<bar>(a + b) sdiv 2\<bar> = \<bar>a + b\<bar> div 2"
    by (simp add: signed_divide_int_def sgn_if)
  also have "\<dots> \<le> 65535"
    using assms by linarith
  finally show "\<bar>(a + b) sdiv 2\<bar> \<le> 65535" .
qed

lemma sdiv_nonneg: "0 \<le> a \<Longrightarrow> (a :: int) sdiv 16 = a div 16"
  by (simp add: signed_divide_int_def sgn_if)

lemma unat_of_int_small:
  assumes "0 \<le> k" "k \<le> 512"
  shows "unat (of_int k :: 64 word) = nat k"
proof -
  have eq: "(of_int k :: 64 word) = of_nat (nat k)"
    using assms(1) by (rule word_of_int_nat)
  have "nat k \<le> 512"
    using assms by linarith
  moreover have "(512 :: nat) < 2 ^ LENGTH(64)"
    by simp
  ultimately have "nat k < 2 ^ LENGTH(64)"
    by (rule le_less_trans)
  then have "nat k mod 2 ^ LENGTH(64) = nat k"
    by (rule mod_less)
  then show ?thesis
    unfolding eq unat_of_nat .
qed

lemma shape_component:
  assumes "16 \<le> w"
  shows "1 \<le> unat (of_int (min (w sdiv GRID_STEP) (int MAX_GRID_SIZE)) :: size_t)"
    and "unat (of_int (min (w sdiv GRID_STEP) (int MAX_GRID_SIZE)) :: size_t) \<le> MAX_GRID_SIZE"
proof -
  define k where "k = min (w sdiv GRID_STEP) (int MAX_GRID_SIZE)"
  have "w sdiv GRID_STEP = w div 16"
    using assms by (simp add: GRID_STEP_def sdiv_nonneg)
  moreover have "1 \<le> w div 16"
    using assms by linarith
  ultimately have k: "1 \<le> k" "k \<le> 512"
    by (simp_all add: MAX_GRID_SIZE_def k_def)
  then have "unat (of_int k :: size_t) = nat k"
    by (intro unat_of_int_small) simp_all
  with k show "1 \<le> unat (of_int (min (w sdiv GRID_STEP) (int MAX_GRID_SIZE)) :: size_t)"
    and "unat (of_int (min (w sdiv GRID_STEP) (int MAX_GRID_SIZE)) :: size_t) \<le> MAX_GRID_SIZE"
    unfolding k_def [symmetric] by (simp_all add: MAX_GRID_SIZE_def)
qed

lemma grid_shape_bounds:
  assumes "16 \<le> w" "16 \<le> h"
  shows "1 \<le> unat (fst (grid_shape w h))" "unat (fst (grid_shape w h)) \<le> MAX_GRID_SIZE"
        "1 \<le> unat (snd (grid_shape w h))" "unat (snd (grid_shape w h)) \<le> MAX_GRID_SIZE"
  using shape_component [OF assms(1)] shape_component [OF assms(2)]
  by (simp_all add: grid_shape_def)

lemma clip_index_le:
  assumes "n \<noteq> 0"
  shows "unat (clip_index s n) \<le> unat n - 1"
proof -
  have "clip_index s n = min (of_int (s sdiv GRID_STEP)) (n - 1)"
    by (simp add: clip_index_def max_def)
  also have "\<dots> \<le> n - 1"
    by simp
  finally have "unat (clip_index s n) \<le> unat (n - 1)"
    by (simp add: word_le_nat_alt)
  then show ?thesis
    using assms by (simp add: unat_minus_one)
qed

lemma unat_of_int_coordinate:
  assumes "0 \<le> q" "q \<le> 2047"
  shows "unat (of_int q :: 64 word) = nat q"
proof -
  have eq: "(of_int q :: 64 word) = of_nat (nat q)"
    using assms(1) by (rule word_of_int_nat)
  have "nat q \<le> 2047"
    using assms by linarith
  moreover have "(2047 :: nat) < 2 ^ LENGTH(64)"
    by simp
  ultimately have "nat q < 2 ^ LENGTH(64)"
    by (rule le_less_trans)
  then have "nat q mod 2 ^ LENGTH(64) = nat q"
    by (rule mod_less)
  then show ?thesis
    unfolding eq unat_of_nat .
qed

text \<open>For a source coordinate that is not negative the index is the quotient by 16,
  clipped at \<open>n - 1\<close>.\<close>

lemma clip_index_nonneg:
  assumes "0 \<le> s" and "s \<le> 32767" and "n \<noteq> 0"
  shows "unat (clip_index s n) = min (nat (s div 16)) (unat n - 1)"
proof -
  have q: "s sdiv GRID_STEP = s div 16"
    using assms(1) by (simp add: GRID_STEP_def sdiv_nonneg)
  have "0 \<le> s div 16" "s div 16 \<le> 2047"
    using assms(1,2) by linarith+
  then have u: "unat (of_int (s div 16) :: 64 word) = nat (s div 16)"
    by (rule unat_of_int_coordinate)
  have "clip_index s n = min (of_int (s div 16)) (n - 1)"
    by (simp add: clip_index_def max_def q)
  then have "unat (clip_index s n) = min (unat (of_int (s div 16) :: 64 word)) (unat (n - 1))"
    by (simp add: min_def word_le_nat_alt)
  also have "\<dots> = min (nat (s div 16)) (unat n - 1)"
    using assms(3) by (simp add: u unat_minus_one)
  finally show ?thesis .
qed

lemma target_cell_in_array:
  assumes "1 \<le> unat (fst shape)" "unat (fst shape) \<le> MAX_GRID_SIZE"
          "1 \<le> unat (snd shape)" "unat (snd shape) \<le> MAX_GRID_SIZE"
  shows "fst (target_cell shape mv) < unat (fst shape)"
    and "snd (target_cell shape mv) < unat (snd shape)"
    and "in_array (fst (target_cell shape mv)) (snd (target_cell shape mv))"
proof -
  have nz: "fst shape \<noteq> 0" "snd shape \<noteq> 0"
    using assms by auto
  show a: "fst (target_cell shape mv) < unat (fst shape)"
    using clip_index_le [OF nz(1), of "src_y mv"] assms(1) by (simp add: target_cell_def)
  show b: "snd (target_cell shape mv) < unat (snd shape)"
    using clip_index_le [OF nz(2), of "src_x mv"] assms(3) by (simp add: target_cell_def)
  show "in_array (fst (target_cell shape mv)) (snd (target_cell shape mv))"
    using a b assms(2,4) by (simp add: in_array_def)
qed

section \<open>The interpolation loops\<close>

lemma for_each_append:
  "for_each (xs @ ys) body s =
     (case for_each xs body s of Inl e \<Rightarrow> Inl e | Inr s' \<Rightarrow> for_each ys body s')"
  by (induction xs arbitrary: s) (auto split: sum.splits)

lemma interp_row_0: "interp_row prev nxt i 0 g = g"
  by (simp add: interp_row_def)

lemma interpolate_cell_row:
  "i < MAX_GRID_SIZE \<Longrightarrow> m < MAX_GRID_SIZE \<Longrightarrow>
   interpolate_cell prev nxt i m (interp_row prev nxt i m g) = Inr (interp_row prev nxt i (Suc m) g)"
  by (auto simp: interpolate_cell_def interp_row_def in_array_def store_def fun_eq_iff less_Suc_eq)

lemma inner_loop:
  "i < MAX_GRID_SIZE \<Longrightarrow> m \<le> MAX_GRID_SIZE \<Longrightarrow>
   for_each [0 ..< m] (\<lambda>j. interpolate_cell prev nxt i j) g = Inr (interp_row prev nxt i m g)"
proof (induction m)
  case 0
  then show ?case by (simp add: interp_row_0)
next
  case (Suc m)
  then show ?case by (simp add: for_each_append interpolate_cell_row)
qed

lemma interp_rows_0: "interp_rows prev nxt 0 m g = g"
  by (simp add: interp_rows_def)

lemma interp_row_rows:
  "interp_row prev nxt n m (interp_rows prev nxt n m g) = interp_rows prev nxt (Suc n) m g"
  by (auto simp: interp_row_def interp_rows_def fun_eq_iff less_Suc_eq)

lemma outer_loop:
  "n \<le> MAX_GRID_SIZE \<Longrightarrow> m \<le> MAX_GRID_SIZE \<Longrightarrow>
   for_each [0 ..< n] (\<lambda>i. for_each [0 ..< m] (\<lambda>j. interpolate_cell prev nxt i j)) g
     = Inr (interp_rows prev nxt n m g)"
proof (induction n)
  case 0
  then show ?case by (simp add: interp_rows_0)
next
  case (Suc n)
  then show ?case by (simp add: for_each_append inner_loop interp_row_rows)
qed

lemma InterpolateFlow_eq:
  "unat (fst (Shape this)) \<le> MAX_GRID_SIZE \<Longrightarrow> unat (snd (Shape this)) \<le> MAX_GRID_SIZE \<Longrightarrow>
   InterpolateFlow this prev nxt =
     Inr (interp_rows prev nxt (unat (fst (Shape this))) (unat (snd (Shape this)))
            (this\<lparr>Empty := False\<rparr>))"
  by (simp add: InterpolateFlow_def outer_loop)

section \<open>The aggregation loop\<close>

lemma assign_vector_eq:
  assumes "1 \<le> unat (fst (Shape cur))" "unat (fst (Shape cur)) \<le> MAX_GRID_SIZE"
          "1 \<le> unat (snd (Shape cur))" "unat (snd (Shape cur)) \<le> MAX_GRID_SIZE"
  shows "assign_vector mv cur =
           Inr (cur\<lparr> Empty := False,
                     dx := store (dx cur) (fst (target_cell (Shape cur) mv))
                             (snd (target_cell (Shape cur) mv)) (src_x mv - dst_x mv),
                     dy := store (dy cur) (fst (target_cell (Shape cur) mv))
                             (snd (target_cell (Shape cur) mv)) (src_y mv - dst_y mv),
                     occupancy := store (occupancy cur) (fst (target_cell (Shape cur) mv))
                             (snd (target_cell (Shape cur) mv)) False \<rparr>)"
  using target_cell_in_array(3) [OF assms, of mv] by (simp add: assign_vector_def Let_def)

lemma store_apply:
  "store a i j v r c = (if (i, j) = (r, c) then v else a r c)"
  by (simp add: store_def)

lemma assign_loop:
  assumes "1 \<le> unat (fst (Shape cur0))" "unat (fst (Shape cur0)) \<le> MAX_GRID_SIZE"
          "1 \<le> unat (snd (Shape cur0))" "unat (snd (Shape cur0)) \<le> MAX_GRID_SIZE"
  shows "\<exists>cur. for_each mvs assign_vector cur0 = Inr cur
           \<and> Shape cur = Shape cur0 \<and> Pts cur = Pts cur0 \<and> FrameIndex cur = FrameIndex cur0
           \<and> PictType cur = PictType cur0
           \<and> Empty cur = (Empty cur0 \<and> mvs = [])
           \<and> (\<forall>r c. dx cur r c =
                 (if filter (\<lambda>mv. target_cell (Shape cur0) mv = (r, c)) mvs = [] then dx cur0 r c
                  else src_x (last (filter (\<lambda>mv. target_cell (Shape cur0) mv = (r, c)) mvs))
                         - dst_x (last (filter (\<lambda>mv. target_cell (Shape cur0) mv = (r, c)) mvs))))
           \<and> (\<forall>r c. dy cur r c =
                 (if filter (\<lambda>mv. target_cell (Shape cur0) mv = (r, c)) mvs = [] then dy cur0 r c
                  else src_y (last (filter (\<lambda>mv. target_cell (Shape cur0) mv = (r, c)) mvs))
                         - dst_y (last (filter (\<lambda>mv. target_cell (Shape cur0) mv = (r, c)) mvs))))"
proof (induction mvs rule: rev_induct)
  case Nil
  then show ?case by simp
next
  case (snoc mv mvs)
  then obtain cur where run: "for_each mvs assign_vector cur0 = Inr cur"
    and shape: "Shape cur = Shape cur0"
    and fields: "Pts cur = Pts cur0" "FrameIndex cur = FrameIndex cur0"
      "PictType cur = PictType cur0"
    and x: "\<And>r c. dx cur r c =
                 (if filter (\<lambda>mv. target_cell (Shape cur0) mv = (r, c)) mvs = [] then dx cur0 r c
                  else src_x (last (filter (\<lambda>mv. target_cell (Shape cur0) mv = (r, c)) mvs))
                         - dst_x (last (filter (\<lambda>mv. target_cell (Shape cur0) mv = (r, c)) mvs)))"
    and y: "\<And>r c. dy cur r c =
                 (if filter (\<lambda>mv. target_cell (Shape cur0) mv = (r, c)) mvs = [] then dy cur0 r c
                  else src_y (last (filter (\<lambda>mv. target_cell (Shape cur0) mv = (r, c)) mvs))
                         - dst_y (last (filter (\<lambda>mv. target_cell (Shape cur0) mv = (r, c)) mvs)))"
    by blast
  let ?i = "fst (target_cell (Shape cur0) mv)" and ?j = "snd (target_cell (Shape cur0) mv)"
  let ?cur' = "cur\<lparr> Empty := False,
                     dx := store (dx cur) ?i ?j (src_x mv - dst_x mv),
                     dy := store (dy cur) ?i ?j (src_y mv - dst_y mv),
                     occupancy := store (occupancy cur) ?i ?j False \<rparr>"
  have step: "assign_vector mv cur = Inr ?cur'"
    using assign_vector_eq [of cur mv] assms by (simp add: shape)
  have run': "for_each (mvs @ [mv]) assign_vector cur0 = Inr ?cur'"
    by (simp add: for_each_append run step)
  have x': "dx ?cur' r c =
                 (if filter (\<lambda>mv. target_cell (Shape cur0) mv = (r, c)) (mvs @ [mv]) = [] then dx cur0 r c
                  else src_x (last (filter (\<lambda>mv. target_cell (Shape cur0) mv = (r, c)) (mvs @ [mv])))
                         - dst_x (last (filter (\<lambda>mv. target_cell (Shape cur0) mv = (r, c)) (mvs @ [mv]))))" for r c
    by (cases "target_cell (Shape cur0) mv = (r, c)")
       (simp_all add: store_apply x)
  have y': "dy ?cur' r c =
                 (if filter (\<lambda>mv. target_cell (Shape cur0) mv = (r, c)) (mvs @ [mv]) = [] then dy cur0 r c
                  else src_y (last (filter (\<lambda>mv. target_cell (Shape cur0) mv = (r, c)) (mvs @ [mv])))
                         - dst_y (last (filter (\<lambda>mv. target_cell (Shape cur0) mv = (r, c)) (mvs @ [mv]))))" for r c
    by (cases "target_cell (Shape cur0) mv = (r, c)")
       (simp_all add: store_apply y)
  show ?case
    using run' shape fields x' y' by (intro exI [of _ ?cur']) simp
qed

lemma aggregate_total:
  assumes "16 \<le> w" "16 \<le> h"
  shows "\<exists>cur. aggregate fi pts pt mvs w h = Inr cur
           \<and> Shape cur = grid_shape w h \<and> Pts cur = pts \<and> FrameIndex cur = fi
           \<and> PictType cur = pt
           \<and> Empty cur = (mvs = [])
           \<and> (\<forall>r c. dx cur r c =
                 (if filter (\<lambda>mv. target_cell (grid_shape w h) mv = (r, c)) mvs = [] then 0
                  else src_x (last (filter (\<lambda>mv. target_cell (grid_shape w h) mv = (r, c)) mvs))
                         - dst_x (last (filter (\<lambda>mv. target_cell (grid_shape w h) mv = (r, c)) mvs))))
           \<and> (\<forall>r c. dy cur r c =
                 (if filter (\<lambda>mv. target_cell (grid_shape w h) mv = (r, c)) mvs = [] then 0
                  else src_y (last (filter (\<lambda>mv. target_cell (grid_shape w h) mv = (r, c)) mvs))
                         - dst_y (last (filter (\<lambda>mv. target_cell (grid_shape w h) mv = (r, c)) mvs))))"
proof -
  let ?new = "new_FrameInfo fi pts pt w h"
  have init: "Shape ?new = grid_shape w h" "Pts ?new = pts" "FrameIndex ?new = fi"
    "PictType ?new = pt" "Empty ?new = True" "\<And>r c. dx ?new r c = 0" "\<And>r c. dy ?new r c = 0"
    by (simp_all add: new_FrameInfo_def)
  have "1 \<le> unat (fst (Shape ?new))" "unat (fst (Shape ?new)) \<le> MAX_GRID_SIZE"
       "1 \<le> unat (snd (Shape ?new))" "unat (snd (Shape ?new)) \<le> MAX_GRID_SIZE"
    using grid_shape_bounds [OF assms] by (simp_all only: init)
  from assign_loop [OF this, of mvs] show ?thesis
    unfolding aggregate_def init by simp
qed

section \<open>Interpolation of a gap frame\<close>

text \<open>
  Claim C1, as the code has it. For every cell inside the shape of the gap frame,
  \<open>InterpolateFlow\<close> stores the quotient of the sum of the two neighbours' values by 2,
  for \<open>dx\<close> and for \<open>dy\<close>. The quotient is the one of C's integer division, which
  truncates towards zero: it is the floor of the half when the sum is non-negative or
  even, and one more than the floor when the sum is negative and odd.
\<close>

theorem InterpolateFlow_cells_truncate:
  assumes "unat (fst (Shape this)) \<le> MAX_GRID_SIZE"
      and "unat (snd (Shape this)) \<le> MAX_GRID_SIZE"
      and "r < unat (fst (Shape this))"
      and "c < unat (snd (Shape this))"
  shows "\<exists>gap. InterpolateFlow this prev cur = Inr gap
           \<and> dx gap r c = (dx prev r c + dx cur r c) sdiv 2
           \<and> dy gap r c = (dy prev r c + dy cur r c) sdiv 2
           \<and> dx gap r c = (dx prev r c + dx cur r c) div 2
                 + of_bool (dx prev r c + dx cur r c < 0 \<and> odd (dx prev r c + dx cur r c))
           \<and> dy gap r c = (dy prev r c + dy cur r c) div 2
                 + of_bool (dy prev r c + dy cur r c < 0 \<and> odd (dy prev r c + dy cur r c))"
proof -
  let ?gap = "interp_rows prev cur (unat (fst (Shape this))) (unat (snd (Shape this)))
                (this\<lparr>Empty := False\<rparr>)"
  have run: "InterpolateFlow this prev cur = Inr ?gap"
    using assms(1,2) by (rule InterpolateFlow_eq)
  have x: "dx ?gap r c = (dx prev r c + dx cur r c) sdiv 2"
    using assms(3,4) by (simp add: interp_rows_def)
  have y: "dy ?gap r c = (dy prev r c + dy cur r c) sdiv 2"
    using assms(3,4) by (simp add: interp_rows_def)
  show ?thesis
    using run x y sdiv_two [of "dx prev r c + dx cur r c"] sdiv_two [of "dy prev r c + dy cur r c"]
    by (intro exI [of _ ?gap]) (simp only: simp_thms)
qed

theorem InterpolateFlow_cells_truncate_witness:
  "unat (fst (Shape (new_FrameInfo 2 1 CHR ''B'' 16 16))) \<le> MAX_GRID_SIZE
   \<and> unat (snd (Shape (new_FrameInfo 2 1 CHR ''B'' 16 16))) \<le> MAX_GRID_SIZE
   \<and> 0 < unat (fst (Shape (new_FrameInfo 2 1 CHR ''B'' 16 16)))
   \<and> 0 < unat (snd (Shape (new_FrameInfo 2 1 CHR ''B'' 16 16)))
   \<and> (\<exists>gap. InterpolateFlow (new_FrameInfo 2 1 CHR ''B'' 16 16)
                (new_FrameInfo 1 0 CHR ''P'' 16 16) (new_FrameInfo 3 2 CHR ''P'' 16 16) = Inr gap
           \<and> dx gap 0 0 = (dx (new_FrameInfo 1 0 CHR ''P'' 16 16) 0 0
                             + dx (new_FrameInfo 3 2 CHR ''P'' 16 16) 0 0) sdiv 2)"
proof -
  have h: "unat (fst (Shape (new_FrameInfo 2 1 CHR ''B'' 16 16))) \<le> MAX_GRID_SIZE"
      "unat (snd (Shape (new_FrameInfo 2 1 CHR ''B'' 16 16))) \<le> MAX_GRID_SIZE"
      "0 < unat (fst (Shape (new_FrameInfo 2 1 CHR ''B'' 16 16)))"
      "0 < unat (snd (Shape (new_FrameInfo 2 1 CHR ''B'' 16 16)))"
    by (simp_all add: new_FrameInfo_def grid_shape_def GRID_STEP_def MAX_GRID_SIZE_def
          signed_divide_int_def)
  from InterpolateFlow_cells_truncate [OF h, of "new_FrameInfo 1 0 CHR ''P'' 16 16"
      "new_FrameInfo 3 2 CHR ''P'' 16 16"]
  show ?thesis
    using h by blast
qed

text \<open>
  The floor of claim C1 fails on a negative odd sum. Three frames of a 16x16 stream:
  the first has one vector with displacement \<open>-3\<close> in cell (0,0), the second has no
  vectors, the third has one vector with displacement \<open>0\<close> in the same cell. The second
  frame is printed with \<open>-1\<close> in the cell, and the floor of \<open>-3/2\<close> is \<open>-2\<close>.
\<close>

theorem floor_interpolation_counterexample:
  "dx (fst (projr (frame_loop 16 16 1
        [(0, CHR ''P'', [\<lparr>src_x = 0, src_y = 0, dst_x = 3, dst_y = 0\<rparr>]),
         (1, CHR ''B'', []),
         (2, CHR ''P'', [\<lparr>src_x = 0, src_y = 0, dst_x = 0, dst_y = 0\<rparr>])] [])) ! 1) 0 0 = - 1
   \<and> (dx (fst (projr (frame_loop 16 16 1
        [(0, CHR ''P'', [\<lparr>src_x = 0, src_y = 0, dst_x = 3, dst_y = 0\<rparr>]),
         (1, CHR ''B'', []),
         (2, CHR ''P'', [\<lparr>src_x = 0, src_y = 0, dst_x = 0, dst_y = 0\<rparr>])] [])) ! 0) 0 0
       + dx (fst (projr (frame_loop 16 16 1
        [(0, CHR ''P'', [\<lparr>src_x = 0, src_y = 0, dst_x = 3, dst_y = 0\<rparr>]),
         (1, CHR ''B'', []),
         (2, CHR ''P'', [\<lparr>src_x = 0, src_y = 0, dst_x = 0, dst_y = 0\<rparr>])] [])) ! 2) 0 0) div 2 = - 2"
  by (simp add: output_vectors_std_def emit_pending_def InterpolateFlow_def interpolate_cell_def
        store_def aggregate_def assign_vector_def new_FrameInfo_def in_array_def target_cell_def
        clip_index_def grid_shape_def GRID_STEP_def MAX_GRID_SIZE_def signed_divide_int_def)

text \<open>
  Claim C7, as the code has it. \<open>InterpolateFlow\<close> keeps the timestamp, the frame index,
  the picture type, the shape and the occupancy matrix of the gap frame, overwrites the
  cells of \<open>dx\<close> and \<open>dy\<close> that lie inside the shape, and sets the \<open>Empty\<close> flag to
  false.
\<close>

theorem InterpolateFlow_fields:
  assumes "unat (fst (Shape this)) \<le> MAX_GRID_SIZE"
      and "unat (snd (Shape this)) \<le> MAX_GRID_SIZE"
  shows "\<exists>gap. InterpolateFlow this prev cur = Inr gap
           \<and> Pts gap = Pts this \<and> FrameIndex gap = FrameIndex this
           \<and> PictType gap = PictType this \<and> Shape gap = Shape this
           \<and> occupancy gap = occupancy this
           \<and> Empty gap = False
           \<and> dx gap = (\<lambda>i j. if i < unat (fst (Shape this)) \<and> j < unat (snd (Shape this))
                              then (dx prev i j + dx cur i j) sdiv 2 else dx this i j)
           \<and> dy gap = (\<lambda>i j. if i < unat (fst (Shape this)) \<and> j < unat (snd (Shape this))
                              then (dy prev i j + dy cur i j) sdiv 2 else dy this i j)"
proof -
  let ?gap = "interp_rows prev cur (unat (fst (Shape this))) (unat (snd (Shape this)))
                (this\<lparr>Empty := False\<rparr>)"
  have "InterpolateFlow this prev cur = Inr ?gap"
    using assms by (rule InterpolateFlow_eq)
  then show ?thesis
    by (intro exI [of _ ?gap]) (simp add: interp_rows_def fun_eq_iff)
qed

theorem InterpolateFlow_fields_witness:
  "unat (fst (Shape (new_FrameInfo 2 1 CHR ''B'' 32 32))) \<le> MAX_GRID_SIZE
   \<and> unat (snd (Shape (new_FrameInfo 2 1 CHR ''B'' 32 32))) \<le> MAX_GRID_SIZE
   \<and> (\<exists>gap. InterpolateFlow (new_FrameInfo 2 1 CHR ''B'' 32 32)
                (new_FrameInfo 1 0 CHR ''P'' 32 32) (new_FrameInfo 3 2 CHR ''P'' 32 32) = Inr gap
           \<and> Pts gap = 1 \<and> FrameIndex gap = 2 \<and> PictType gap = CHR ''B'' \<and> Empty gap = False)"
proof -
  have h: "unat (fst (Shape (new_FrameInfo 2 1 CHR ''B'' 32 32))) \<le> MAX_GRID_SIZE"
      "unat (snd (Shape (new_FrameInfo 2 1 CHR ''B'' 32 32))) \<le> MAX_GRID_SIZE"
    by (simp_all add: new_FrameInfo_def grid_shape_def GRID_STEP_def MAX_GRID_SIZE_def
          signed_divide_int_def)
  from InterpolateFlow_fields [OF h, of "new_FrameInfo 1 0 CHR ''P'' 32 32"
      "new_FrameInfo 3 2 CHR ''P'' 32 32"]
  obtain gap where "InterpolateFlow (new_FrameInfo 2 1 CHR ''B'' 32 32)
        (new_FrameInfo 1 0 CHR ''P'' 32 32) (new_FrameInfo 3 2 CHR ''P'' 32 32) = Inr gap"
    and "Pts gap = Pts (new_FrameInfo 2 1 CHR ''B'' 32 32)"
    and "FrameIndex gap = FrameIndex (new_FrameInfo 2 1 CHR ''B'' 32 32)"
    and "PictType gap = PictType (new_FrameInfo 2 1 CHR ''B'' 32 32)"
    and "Empty gap = False"
    by blast
  then show ?thesis
    using h by (simp add: new_FrameInfo_def)
qed

text \<open>
  The \<open>Empty\<close> flag is not kept (claim C7): a frame built from an empty vector list is
  marked empty, and after its interpolation between two neighbours it is not, although
  no vector was ever assigned to it.
\<close>

theorem interpolation_keeps_empty_flag_counterexample:
  "Empty (projr (aggregate 2 1 CHR ''B'' [] 16 16)) = True
   \<and> Empty (projr (InterpolateFlow (projr (aggregate 2 1 CHR ''B'' [] 16 16))
        (projr (aggregate 1 0 CHR ''P'' [\<lparr>src_x = 0, src_y = 0, dst_x = 3, dst_y = 0\<rparr>] 16 16))
        (projr (aggregate 3 2 CHR ''P'' [\<lparr>src_x = 0, src_y = 0, dst_x = 1, dst_y = 0\<rparr>] 16 16))))
      = False"
  by (simp add: InterpolateFlow_def interpolate_cell_def
        store_def aggregate_def assign_vector_def new_FrameInfo_def in_array_def target_cell_def
        clip_index_def grid_shape_def GRID_STEP_def MAX_GRID_SIZE_def signed_divide_int_def)

section \<open>The target cell of a vector\<close>

text \<open>
  Claim C4 at a vector whose source row is negative. On a 64x64 stream (4 rows) a vector
  with \<open>src_y = -16\<close> is written to row 3, the last one: the quotient \<open>-1\<close> becomes
  the largest \<open>size_t\<close> value before it is clipped, so the lower clip at 0 never applies.
  The claim's formula, a clip of the floor of \<open>-16/16\<close> into 0..3, gives row 0.
\<close>

theorem negative_source_row_clips_to_last_row:
  "target_cell (grid_shape 64 64) \<lparr>src_x = 0, src_y = - 16, dst_x = 0, dst_y = 0\<rparr> = (3, 0)
   \<and> unat (fst (grid_shape 64 64)) = 4
   \<and> max 0 (min ((- 16) div 16) (4 - 1)) = (0 :: int)"
  by (simp add: target_cell_def clip_index_def grid_shape_def GRID_STEP_def MAX_GRID_SIZE_def
        signed_divide_int_def)

section \<open>One call of output_vectors_std\<close>

lemma output_vectors_std_vectors:
  assumes "aggregate fi pts pt mvs w h = Inr cur" and "mvs \<noteq> []"
    and "emit_pending prev cur = Inr printed"
  shows "output_vectors_std prev fi pts pt mvs w h = Inr (printed @ [cur], [cur])"
  using assms by (simp add: output_vectors_std_def)

lemma output_vectors_std_no_vectors:
  "output_vectors_std prev fi pts pt [] w h =
     Inr (if fi = - 1 then prev else [], prev @ [new_FrameInfo fi pts pt w h])"
  by (simp add: output_vectors_std_def aggregate_def)

lemma emit_pending_interpolates:
  assumes "length prev = 2" "Empty (hd prev) = False"
    and "InterpolateFlow (last prev) (hd prev) cur = Inr gap"
  shows "emit_pending prev cur = Inr [gap]"
  using assms by (simp add: emit_pending_def)

lemma emit_pending_total:
  assumes "list_all (\<lambda>f. Shape f = grid_shape w h) prev" "16 \<le> w" "16 \<le> h"
  shows "\<exists>printed. emit_pending prev cur = Inr printed"
proof (cases "length prev = 2 \<and> Empty (hd prev) = False")
  case True
  then have "prev \<noteq> []" by auto
  then have "last prev \<in> set prev" by simp
  with assms(1) have "Shape (last prev) = grid_shape w h"
    by (simp add: list_all_iff)
  with grid_shape_bounds [OF assms(2,3)]
  have "unat (fst (Shape (last prev))) \<le> MAX_GRID_SIZE"
    "unat (snd (Shape (last prev))) \<le> MAX_GRID_SIZE"
    by simp_all
  from InterpolateFlow_eq [OF this] True show ?thesis
    by (simp add: emit_pending_def)
next
  case False
  then show ?thesis by (auto simp add: emit_pending_def)
qed

text \<open>
  Claim C2, as the code has it. When a frame with vectors arrives while the buffer holds
  exactly two entries and the first of them is not empty, the call prints exactly two
  frames: the second buffered entry with the cells inside the shape replaced by the
  interpolated values, then the new frame. The first buffered entry is not printed by
  this call. The buffer is left holding the new frame alone.
\<close>

theorem interpolation_step_emits_gap_then_cur:
  assumes "16 \<le> w" and "16 \<le> h" and "mvs \<noteq> []"
    and "length prev = 2" and "Empty (hd prev) = False"
    and "Shape (last prev) = grid_shape w h"
  shows "\<exists>cur gap. aggregate fi pts pt mvs w h = Inr cur
           \<and> InterpolateFlow (last prev) (hd prev) cur = Inr gap
           \<and> output_vectors_std prev fi pts pt mvs w h = Inr ([gap, cur], [cur])
           \<and> Pts gap = Pts (last prev) \<and> FrameIndex gap = FrameIndex (last prev)
           \<and> PictType gap = PictType (last prev)
           \<and> dx gap = (\<lambda>i j. if i < unat (fst (grid_shape w h)) \<and> j < unat (snd (grid_shape w h))
                              then (dx (hd prev) i j + dx cur i j) sdiv 2 else dx (last prev) i j)
           \<and> dy gap = (\<lambda>i j. if i < unat (fst (grid_shape w h)) \<and> j < unat (snd (grid_shape w h))
                              then (dy (hd prev) i j + dy cur i j) sdiv 2 else dy (last prev) i j)"
proof -
  obtain cur where cur: "aggregate fi pts pt mvs w h = Inr cur"
    using aggregate_total [OF assms(1,2)] by blast
  let ?gap = "interp_rows (hd prev) cur (unat (fst (Shape (last prev))))
                (unat (snd (Shape (last prev)))) ((last prev)\<lparr>Empty := False\<rparr>)"
  have "unat (fst (Shape (last prev))) \<le> MAX_GRID_SIZE"
    "unat (snd (Shape (last prev))) \<le> MAX_GRID_SIZE"
    using grid_shape_bounds [OF assms(1,2)] by (simp_all add: assms(6))
  then have gap: "InterpolateFlow (last prev) (hd prev) cur = Inr ?gap"
    by (rule InterpolateFlow_eq)
  have "emit_pending prev cur = Inr [?gap]"
    using assms(4,5) gap by (rule emit_pending_interpolates)
  with cur assms(3)
  have "output_vectors_std prev fi pts pt mvs w h = Inr ([?gap] @ [cur], [cur])"
    by (rule output_vectors_std_vectors)
  with cur gap show ?thesis
    by (intro exI [of _ cur] exI [of _ ?gap]) (simp add: interp_rows_def assms(6) fun_eq_iff)
qed

theorem interpolation_step_emits_gap_then_cur_witness:
  "(16 :: int) \<le> 16
   \<and> [\<lparr>src_x = 0, src_y = 0, dst_x = 1, dst_y = 0\<rparr>] \<noteq> []
   \<and> length [projr (aggregate 1 0 CHR ''P'' [\<lparr>src_x = 0, src_y = 0, dst_x = 3, dst_y = 0\<rparr>] 16 16),
              new_FrameInfo 2 1 CHR ''B'' 16 16] = 2
   \<and> Empty (hd [projr (aggregate 1 0 CHR ''P'' [\<lparr>src_x = 0, src_y = 0, dst_x = 3, dst_y = 0\<rparr>] 16 16),
              new_FrameInfo 2 1 CHR ''B'' 16 16]) = False
   \<and> Shape (last [projr (aggregate 1 0 CHR ''P'' [\<lparr>src_x = 0, src_y = 0, dst_x = 3, dst_y = 0\<rparr>] 16 16),
              new_FrameInfo 2 1 CHR ''B'' 16 16]) = grid_shape 16 16
   \<and> (\<exists>cur gap. output_vectors_std
          [projr (aggregate 1 0 CHR ''P'' [\<lparr>src_x = 0, src_y = 0, dst_x = 3, dst_y = 0\<rparr>] 16 16),
           new_FrameInfo 2 1 CHR ''B'' 16 16]
          3 2 CHR ''P'' [\<lparr>src_x = 0, src_y = 0, dst_x = 1, dst_y = 0\<rparr>] 16 16
        = Inr ([gap, cur], [cur]) \<and> FrameIndex gap = 2 \<and> dx gap 0 0 = - 2)"
proof -
  let ?prev = "[projr (aggregate 1 0 CHR ''P'' [\<lparr>src_x = 0, src_y = 0, dst_x = 3, dst_y = 0\<rparr>] 16 16),
                new_FrameInfo 2 1 CHR ''B'' 16 16]"
  let ?mvs = "[\<lparr>src_x = 0, src_y = 0, dst_x = 1, dst_y = 0\<rparr>]"
  have h: "(16 :: int) \<le> 16" "(16 :: int) \<le> 16" "?mvs \<noteq> []" "length ?prev = 2"
    "Empty (hd ?prev) = False" "Shape (last ?prev) = grid_shape 16 16"
    by (simp_all add: aggregate_def assign_vector_def new_FrameInfo_def in_array_def
          target_cell_def clip_index_def grid_shape_def GRID_STEP_def MAX_GRID_SIZE_def
          signed_divide_int_def)
  from interpolation_step_emits_gap_then_cur [OF h, of 3 2 "CHR ''P''"]
  obtain cur gap where agg: "aggregate 3 2 CHR ''P'' ?mvs 16 16 = Inr cur"
    and out: "output_vectors_std ?prev 3 2 CHR ''P'' ?mvs 16 16 = Inr ([gap, cur], [cur])"
    and idx: "FrameIndex gap = FrameIndex (last ?prev)"
    and cells: "dx gap = (\<lambda>i j. if i < unat (fst (grid_shape 16 16)) \<and> j < unat (snd (grid_shape 16 16))
                              then (dx (hd ?prev) i j + dx cur i j) sdiv 2 else dx (last ?prev) i j)"
    by blast
  have "dx cur 0 0 = - 1"
    using agg by (auto simp add: aggregate_def assign_vector_def new_FrameInfo_def in_array_def
          target_cell_def clip_index_def grid_shape_def GRID_STEP_def MAX_GRID_SIZE_def
          signed_divide_int_def store_def)
  then have "dx gap 0 0 = - 2"
    unfolding cells
    by (simp add: aggregate_def assign_vector_def new_FrameInfo_def in_array_def
          target_cell_def clip_index_def grid_shape_def GRID_STEP_def MAX_GRID_SIZE_def
          signed_divide_int_def store_def)
  moreover have "FrameIndex gap = 2"
    using idx by (simp add: new_FrameInfo_def)
  ultimately show ?thesis
    using h out by blast
qed

text \<open>
  Three frames are not printed (claim C2). After a frame with a vector and a frame
  without, the buffer holds the frames 1 and 2 and the first is not empty; the call for
  frame 3, which has a vector, prints the frames 2 and 3 only.
\<close>

theorem three_frames_emitted_counterexample:
  "length (snd (projr (frame_loop 16 16 1
        [(0, CHR ''P'', [\<lparr>src_x = 0, src_y = 0, dst_x = 3, dst_y = 0\<rparr>]),
         (1, CHR ''B'', [])] []))) = 2
   \<and> Empty (hd (snd (projr (frame_loop 16 16 1
        [(0, CHR ''P'', [\<lparr>src_x = 0, src_y = 0, dst_x = 3, dst_y = 0\<rparr>]),
         (1, CHR ''B'', [])] [])))) = False
   \<and> map FrameIndex (snd (projr (frame_loop 16 16 1
        [(0, CHR ''P'', [\<lparr>src_x = 0, src_y = 0, dst_x = 3, dst_y = 0\<rparr>]),
         (1, CHR ''B'', [])] []))) = [1, 2]
   \<and> map FrameIndex (fst (projr (output_vectors_std
        (snd (projr (frame_loop 16 16 1
          [(0, CHR ''P'', [\<lparr>src_x = 0, src_y = 0, dst_x = 3, dst_y = 0\<rparr>]),
           (1, CHR ''B'', [])] [])))
        3 2 CHR ''P'' [\<lparr>src_x = 0, src_y = 0, dst_x = 1, dst_y = 0\<rparr>] 16 16))) = [2, 3]"
  by (simp add: output_vectors_std_def emit_pending_def InterpolateFlow_def interpolate_cell_def
        store_def aggregate_def assign_vector_def new_FrameInfo_def in_array_def target_cell_def
        clip_index_def grid_shape_def GRID_STEP_def MAX_GRID_SIZE_def signed_divide_int_def)

text \<open>
  A frame that arrives with vectors is printed by the call that receives it, as the last
  frame of the call's output. In it, every cell that no vector of the list is written to
  holds 0, and every other cell holds the displacement of the last vector of the list
  that is written to it, where the cell a vector is written to is the one lines 243-246
  compute.
\<close>

lemma last_write_by_target_cell:
  assumes "16 \<le> w" and "16 \<le> h" and "mvs \<noteq> []"
    and "list_all (\<lambda>f. Shape f = grid_shape w h) prev"
  shows "\<exists>printed cur. output_vectors_std prev fi pts pt mvs w h = Inr (printed @ [cur], [cur])
           \<and> dx cur r c =
                 (if filter (\<lambda>mv. target_cell (grid_shape w h) mv = (r, c)) mvs = [] then 0
                  else src_x (last (filter (\<lambda>mv. target_cell (grid_shape w h) mv = (r, c)) mvs))
                         - dst_x (last (filter (\<lambda>mv. target_cell (grid_shape w h) mv = (r, c)) mvs)))
           \<and> dy cur r c =
                 (if filter (\<lambda>mv. target_cell (grid_shape w h) mv = (r, c)) mvs = [] then 0
                  else src_y (last (filter (\<lambda>mv. target_cell (grid_shape w h) mv = (r, c)) mvs))
                         - dst_y (last (filter (\<lambda>mv. target_cell (grid_shape w h) mv = (r, c)) mvs)))"
proof -
  obtain cur where cur: "aggregate fi pts pt mvs w h = Inr cur"
    and x: "dx cur r c =
                 (if filter (\<lambda>mv. target_cell (grid_shape w h) mv = (r, c)) mvs = [] then 0
                  else src_x (last (filter (\<lambda>mv. target_cell (grid_shape w h) mv = (r, c)) mvs))
                         - dst_x (last (filter (\<lambda>mv. target_cell (grid_shape w h) mv = (r, c)) mvs)))"
    and y: "dy cur r c =
                 (if filter (\<lambda>mv. target_cell (grid_shape w h) mv = (r, c)) mvs = [] then 0
                  else src_y (last (filter (\<lambda>mv. target_cell (grid_shape w h) mv = (r, c)) mvs))
                         - dst_y (last (filter (\<lambda>mv. target_cell (grid_shape w h) mv = (r, c)) mvs)))"
    using aggregate_total [OF assms(1,2), of fi pts pt mvs] by blast
  obtain printed where "emit_pending prev cur = Inr printed"
    using emit_pending_total [OF assms(4,1,2)] by blast
  with cur assms(3)
  have "output_vectors_std prev fi pts pt mvs w h = Inr (printed @ [cur], [cur])"
    by (rule output_vectors_std_vectors)
  with x y show ?thesis by blast
qed

lemma last_write_by_target_cell_example:
  "(16 :: int) \<le> 32
   \<and> [\<lparr>src_x = 3, src_y = 2, dst_x = 1, dst_y = 1\<rparr>, \<lparr>src_x = 20, src_y = 5, dst_x = 0, dst_y = 0\<rparr>,
       \<lparr>src_x = 8, src_y = 9, dst_x = 1, dst_y = 15\<rparr>] \<noteq> []
   \<and> list_all (\<lambda>f. Shape f = grid_shape 32 32) [new_FrameInfo 1 0 CHR ''I'' 32 32]
   \<and> (\<exists>printed cur. output_vectors_std [new_FrameInfo 1 0 CHR ''I'' 32 32] 2 1 CHR ''P''
          [\<lparr>src_x = 3, src_y = 2, dst_x = 1, dst_y = 1\<rparr>, \<lparr>src_x = 20, src_y = 5, dst_x = 0, dst_y = 0\<rparr>,
           \<lparr>src_x = 8, src_y = 9, dst_x = 1, dst_y = 15\<rparr>] 32 32
         = Inr (printed @ [cur], [cur])
       \<and> dx cur 0 0 = 7 \<and> dy cur 0 0 = - 6 \<and> dx cur 1 1 = 0 \<and> dy cur 1 1 = 0)"
proof -
  let ?mvs = "[\<lparr>src_x = 3, src_y = 2, dst_x = 1, dst_y = 1\<rparr>, \<lparr>src_x = 20, src_y = 5, dst_x = 0, dst_y = 0\<rparr>,
       \<lparr>src_x = 8, src_y = 9, dst_x = 1, dst_y = 15\<rparr>]"
  let ?prev = "[new_FrameInfo 1 0 CHR ''I'' 32 32]"
  have h: "(16 :: int) \<le> 32" "(16 :: int) \<le> 32" "?mvs \<noteq> []"
    "list_all (\<lambda>f. Shape f = grid_shape 32 32) ?prev"
    by (simp_all add: new_FrameInfo_def)
  have cells: "target_cell (grid_shape 32 32) \<lparr>src_x = 3, src_y = 2, dst_x = 1, dst_y = 1\<rparr> = (0, 0)"
    "target_cell (grid_shape 32 32) \<lparr>src_x = 20, src_y = 5, dst_x = 0, dst_y = 0\<rparr> = (0, 1)"
    "target_cell (grid_shape 32 32) \<lparr>src_x = 8, src_y = 9, dst_x = 1, dst_y = 15\<rparr> = (0, 0)"
    by (simp_all add: target_cell_def clip_index_def grid_shape_def GRID_STEP_def
          MAX_GRID_SIZE_def signed_divide_int_def)
  from last_write_by_target_cell [OF h, of 2 1 "CHR ''P''" 0 0]
    last_write_by_target_cell [OF h, of 2 1 "CHR ''P''" 1 1]
  show ?thesis
    using h by (auto simp add: cells)
qed

text \<open>
  For source coordinates that are not negative, the cell a vector is written to is the
  one of the specification, the quotient by 16 clipped into the grid, and the last
  vector mapped to a cell wins.
\<close>

lemma target_cell_nonneg:
  assumes "0 \<le> src_x mv" "src_x mv \<le> 32767" "0 \<le> src_y mv" "src_y mv \<le> 32767"
    and "fst shape \<noteq> 0" "snd shape \<noteq> 0"
  shows "target_cell shape mv =
           (min (nat (src_y mv div 16)) (unat (fst shape) - 1),
            min (nat (src_x mv div 16)) (unat (snd shape) - 1))"
  using clip_index_nonneg [OF assms(3,4,5)] clip_index_nonneg [OF assms(1,2,6)]
  by (simp add: target_cell_def)

lemma last_write_wins_nonnegative_sources:
  assumes "16 \<le> w" and "16 \<le> h" and "mvs \<noteq> []"
    and "list_all (\<lambda>f. Shape f = grid_shape w h) prev"
    and "list_all (\<lambda>mv. 0 \<le> src_x mv \<and> src_x mv \<le> 32767 \<and> 0 \<le> src_y mv \<and> src_y mv \<le> 32767) mvs"
  shows "\<exists>printed cur. output_vectors_std prev fi pts pt mvs w h = Inr (printed @ [cur], [cur])
           \<and> dx cur r c =
                 (if filter (\<lambda>mv. (min (nat (src_y mv div 16)) (unat (fst (grid_shape w h)) - 1),
                                    min (nat (src_x mv div 16)) (unat (snd (grid_shape w h)) - 1))
                                   = (r, c)) mvs = [] then 0
                  else src_x (last (filter (\<lambda>mv. (min (nat (src_y mv div 16)) (unat (fst (grid_shape w h)) - 1),
                                    min (nat (src_x mv div 16)) (unat (snd (grid_shape w h)) - 1))
                                   = (r, c)) mvs))
                         - dst_x (last (filter (\<lambda>mv. (min (nat (src_y mv div 16)) (unat (fst (grid_shape w h)) - 1),
                                    min (nat (src_x mv div 16)) (unat (snd (grid_shape w h)) - 1))
                                   = (r, c)) mvs)))
           \<and> dy cur r c =
                 (if filter (\<lambda>mv. (min (nat (src_y mv div 16)) (unat (fst (grid_shape w h)) - 1),
                                    min (nat (src_x mv div 16)) (unat (snd (grid_shape w h)) - 1))
                                   = (r, c)) mvs = [] then 0
                  else src_y (last (filter (\<lambda>mv. (min (nat (src_y mv div 16)) (unat (fst (grid_shape w h)) - 1),
                                    min (nat (src_x mv div 16)) (unat (snd (grid_shape w h)) - 1))
                                   = (r, c)) mvs))
                         - dst_y (last (filter (\<lambda>mv. (min (nat (src_y mv div 16)) (unat (fst (grid_shape w h)) - 1),
                                    min (nat (src_x mv div 16)) (unat (snd (grid_shape w h)) - 1))
                                   = (r, c)) mvs)))"
proof -
  have nz: "fst (grid_shape w h) \<noteq> 0" "snd (grid_shape w h) \<noteq> 0"
    using grid_shape_bounds(1,3) [OF assms(1,2)] by auto
  have eq: "filter (\<lambda>mv. target_cell (grid_shape w h) mv = (r, c)) mvs =
        filter (\<lambda>mv. (min (nat (src_y mv div 16)) (unat (fst (grid_shape w h)) - 1),
                      min (nat (src_x mv div 16)) (unat (snd (grid_shape w h)) - 1)) = (r, c)) mvs"
  proof (rule filter_cong [OF refl])
    fix mv assume "mv \<in> set mvs"
    with assms(5) have "0 \<le> src_x mv" "src_x mv \<le> 32767" "0 \<le> src_y mv" "src_y mv \<le> 32767"
      by (simp_all add: list_all_iff)
    from target_cell_nonneg [OF this nz]
    show "(target_cell (grid_shape w h) mv = (r, c)) =
          ((min (nat (src_y mv div 16)) (unat (fst (grid_shape w h)) - 1),
            min (nat (src_x mv div 16)) (unat (snd (grid_shape w h)) - 1)) = (r, c))"
      by simp
  qed
  from last_write_by_target_cell [OF assms(1-4), of fi pts pt r c] show ?thesis
    unfolding eq .
qed

text \<open>
  Claim C8 at a frame with a vector whose source row is negative. On a 64x64 stream
  (4 rows, 4 columns) the list holds a vector with source (0,0) and displacement (-5,-7),
  then a vector with source (0,-16) and displacement (-3,4). The clip of the floor of the
  quotient by 16 into 0..3 maps both to cell (0,0), so the printed cell (0,0) should
  hold (-3,4), the later displacement, and cell (3,0), to which no vector is mapped,
  should hold 0. The printed frame holds (-5,-7) in cell (0,0) and (-3,4) in cell (3,0):
  the unsigned clip of lines 243-246 sends the second vector to the last row.
\<close>

theorem later_vector_lost_at_negative_source:
  "dx (last (fst (projr (output_vectors_std [] 1 0 CHR ''P''
        [\<lparr>src_x = 0, src_y = 0, dst_x = 5, dst_y = 7\<rparr>,
         \<lparr>src_x = 0, src_y = - 16, dst_x = 3, dst_y = - 20\<rparr>] 64 64)))) 0 0 = - 5
   \<and> dy (last (fst (projr (output_vectors_std [] 1 0 CHR ''P''
        [\<lparr>src_x = 0, src_y = 0, dst_x = 5, dst_y = 7\<rparr>,
         \<lparr>src_x = 0, src_y = - 16, dst_x = 3, dst_y = - 20\<rparr>] 64 64)))) 0 0 = - 7
   \<and> dx (last (fst (projr (output_vectors_std [] 1 0 CHR ''P''
        [\<lparr>src_x = 0, src_y = 0, dst_x = 5, dst_y = 7\<rparr>,
         \<lparr>src_x = 0, src_y = - 16, dst_x = 3, dst_y = - 20\<rparr>] 64 64)))) 3 0 = - 3
   \<and> dy (last (fst (projr (output_vectors_std [] 1 0 CHR ''P''
        [\<lparr>src_x = 0, src_y = 0, dst_x = 5, dst_y = 7\<rparr>,
         \<lparr>src_x = 0, src_y = - 16, dst_x = 3, dst_y = - 20\<rparr>] 64 64)))) 3 0 = 4
   \<and> unat (fst (grid_shape 64 64)) = 4 \<and> unat (snd (grid_shape 64 64)) = 4
   \<and> max 0 (min ((0 :: int) div 16) (4 - 1)) = 0
   \<and> max 0 (min ((- 16 :: int) div 16) (4 - 1)) = 0"
  by (simp add: output_vectors_std_def emit_pending_def aggregate_def assign_vector_def
        store_def new_FrameInfo_def in_array_def target_cell_def clip_index_def grid_shape_def
        GRID_STEP_def MAX_GRID_SIZE_def signed_divide_int_def)

section \<open>The buffer over a whole stream\<close>

lemma is_fresh_new: "is_fresh w h (new_FrameInfo fi pts pt w h)"
  by (simp add: is_fresh_def new_FrameInfo_def)

lemma buffer_ok_push:
  assumes "buffer_ok w h prev"
  shows "buffer_ok w h (prev @ [new_FrameInfo fi pts pt w h])"
proof (cases prev)
  case Nil
  then show ?thesis by (simp add: buffer_ok_def new_FrameInfo_def)
next
  case (Cons f fs)
  with assms show ?thesis
    by (simp add: buffer_ok_def is_fresh_new) (simp add: new_FrameInfo_def)
qed

lemma output_vectors_std_step:
  assumes "16 \<le> w" "16 \<le> h" "buffer_ok w h prev"
  shows "\<exists>out prev'. output_vectors_std prev fi pts pt mvs w h = Inr (out, prev')
           \<and> buffer_ok w h prev'
           \<and> length prev' = (if mvs = [] then Suc (length prev) else 1)"
proof (cases "mvs = []")
  case True
  with assms(3) show ?thesis
    by (simp add: output_vectors_std_no_vectors buffer_ok_push)
next
  case False
  obtain cur where cur: "aggregate fi pts pt mvs w h = Inr cur"
    and shape: "Shape cur = grid_shape w h"
    using aggregate_total [OF assms(1,2), of fi pts pt mvs] by blast
  have "list_all (\<lambda>f. Shape f = grid_shape w h) prev"
    using assms(3) by (simp add: buffer_ok_def)
  then obtain printed where "emit_pending prev cur = Inr printed"
    using emit_pending_total [OF _ assms(1,2)] by blast
  with cur False
  have "output_vectors_std prev fi pts pt mvs w h = Inr (printed @ [cur], [cur])"
    by (rule output_vectors_std_vectors)
  with False shape show ?thesis
    by (simp add: buffer_ok_def)
qed

lemma takeWhile_rev_Cons:
  "takeWhile P (rev (x # xs)) =
     (if list_all P xs then rev xs @ (if P x then [x] else []) else takeWhile P (rev xs))"
proof (cases "list_all P xs")
  case True
  then have "\<And>y. y \<in> set (rev xs) \<Longrightarrow> P y"
    by (simp add: list_all_iff)
  then have "takeWhile P (rev xs @ [x]) = rev xs @ takeWhile P [x]"
    by (rule takeWhile_append2)
  with True show ?thesis by simp
next
  case False
  then obtain y where "y \<in> set (rev xs)" "\<not> P y"
    by (auto simp: list_all_iff)
  then have "takeWhile P (rev xs @ [x]) = takeWhile P (rev xs)"
    by (rule takeWhile_append1)
  with False show ?thesis by simp
qed

lemma frame_loop_buffer:
  assumes "16 \<le> w" "16 \<le> h" "buffer_ok w h prev"
  shows "\<exists>out prev'. frame_loop w h fi fs prev = Inr (out, prev')
           \<and> buffer_ok w h prev'
           \<and> length prev' =
               (if list_all (\<lambda>f. snd (snd f) = []) fs then length prev + length fs
                else Suc (length (takeWhile (\<lambda>f. snd (snd f) = []) (rev fs))))"
  using assms(3)
proof (induction fs arbitrary: prev fi)
  case Nil
  then show ?case by simp
next
  case (Cons f fs)
  obtain pts pt mvs where f: "f = (pts, pt, mvs)"
    by (cases f)
  obtain out prev1 where step: "output_vectors_std prev fi pts pt mvs w h = Inr (out, prev1)"
    and ok1: "buffer_ok w h prev1"
    and len1: "length prev1 = (if mvs = [] then Suc (length prev) else 1)"
    using output_vectors_std_step [OF assms(1,2) Cons.prems] by blast
  obtain out' prev' where rest: "frame_loop w h (fi + 1) fs prev1 = Inr (out', prev')"
    and ok': "buffer_ok w h prev'"
    and len': "length prev' =
               (if list_all (\<lambda>f. snd (snd f) = []) fs then length prev1 + length fs
                else Suc (length (takeWhile (\<lambda>f. snd (snd f) = []) (rev fs))))"
    using Cons.IH [OF ok1] by blast
  have run: "frame_loop w h fi (f # fs) prev = Inr (out @ out', prev')"
    by (simp add: f step rest)
  have "length prev' =
               (if list_all (\<lambda>f. snd (snd f) = []) (f # fs) then length prev + length (f # fs)
                else Suc (length (takeWhile (\<lambda>f. snd (snd f) = []) (rev (f # fs)))))"
    unfolding takeWhile_rev_Cons using len' len1 by (simp add: f)
  with run ok' show ?case by blast
qed

lemma buffer_ok_Nil: "buffer_ok w h []"
  by (simp add: buffer_ok_def)




text \<open>
  Claim C10. Whenever the buffer holds exactly two entries after a sequence of frames,
  that is, when the next frame arrives, the second entry is an empty frame: it is as the
  constructor left it, no vector was assigned to it and its grids are zero. So
  \<open>InterpolateFlow\<close>, which the next call applies to the second of two entries only,
  never overwrites a frame that carried vectors.
\<close>

theorem second_buffered_entry_is_empty:
  assumes "16 \<le> w" and "16 \<le> h"
  shows "\<exists>out prev. frame_loop w h 1 fs [] = Inr (out, prev)
           \<and> (length prev = 2 \<longrightarrow>
                Empty (prev ! 1) = True
                \<and> prev ! 1 = new_FrameInfo (FrameIndex (prev ! 1)) (Pts (prev ! 1))
                                (PictType (prev ! 1)) w h
                \<and> dx (prev ! 1) = (\<lambda>i j. 0) \<and> dy (prev ! 1) = (\<lambda>i j. 0))"
proof -
  obtain out prev where run: "frame_loop w h 1 fs [] = Inr (out, prev)"
    and ok: "buffer_ok w h prev"
    using frame_loop_buffer [OF assms buffer_ok_Nil, of 1 fs] by blast
  have "Empty (prev ! 1) = True
        \<and> prev ! 1 = new_FrameInfo (FrameIndex (prev ! 1)) (Pts (prev ! 1))
                                (PictType (prev ! 1)) w h
        \<and> dx (prev ! 1) = (\<lambda>i j. 0) \<and> dy (prev ! 1) = (\<lambda>i j. 0)"
    if "length prev = 2"
  proof -
    from that obtain a b where "prev = [a, b]"
      by (cases prev; cases "tl prev") auto
    with ok have fresh: "b = new_FrameInfo (FrameIndex b) (Pts b) (PictType b) w h"
      by (simp add: buffer_ok_def is_fresh_def)
    have "Empty b = True" "dx b = (\<lambda>i j. 0)" "dy b = (\<lambda>i j. 0)"
      by (subst fresh, simp add: new_FrameInfo_def)+
    with fresh show ?thesis
      by (simp add: \<open>prev = [a, b]\<close>)
  qed
  with run show ?thesis by blast
qed

theorem second_buffered_entry_is_empty_witness:
  "(16 :: int) \<le> 16
   \<and> (\<exists>out prev. frame_loop 16 16 1
          [(0, CHR ''P'', [\<lparr>src_x = 0, src_y = 0, dst_x = 3, dst_y = 0\<rparr>]),
           (1, CHR ''B'', [])] [] = Inr (out, prev)
        \<and> length prev = 2 \<and> Empty (prev ! 1) = True \<and> dx (prev ! 1) = (\<lambda>i j. 0))"
proof -
  let ?fs = "[(0, CHR ''P'', [\<lparr>src_x = 0, src_y = 0, dst_x = 3, dst_y = 0\<rparr>]), (1 :: int, CHR ''B'', [])]"
  obtain out prev where run: "frame_loop 16 16 1 ?fs [] = Inr (out, prev)"
    and snd: "length prev = 2 \<longrightarrow> Empty (prev ! 1) = True \<and> dx (prev ! 1) = (\<lambda>i j. 0)"
    using second_buffered_entry_is_empty [of 16 16 ?fs] by auto
  have "length (snd (projr (frame_loop 16 16 1 ?fs []))) = 2"
    by (simp add: output_vectors_std_def emit_pending_def aggregate_def assign_vector_def
          new_FrameInfo_def in_array_def target_cell_def clip_index_def grid_shape_def
          GRID_STEP_def MAX_GRID_SIZE_def signed_divide_int_def)
  with run have "length prev = 2" by simp
  with run snd show ?thesis by auto
qed

section \<open>End of stream\<close>

lemma end_of_stream_without_vectors:
  assumes "snd (snd (last ((fst init, snd init, []) # fs))) = []"
  shows "\<exists>cur. end_of_stream w h init fs prev = Inr (prev, prev @ [cur])"
  using assms
  by (cases "last ((fst init, snd init, []) # fs)")
     (simp add: end_of_stream_def output_vectors_std_no_vectors)

text \<open>
  Claim C6 at a stream of two frames, the first without vectors and the second with one
  vector. After the loop the buffer holds frame 2. The call at the end of the stream
  receives the vectors of frame 2 again: it prints the buffered frame 2 and then a frame
  with frame index \<open>-1\<close> built from those vectors, which is not a buffered entry. The
  whole run prints the frames 1, 2, 2 and \<open>-1\<close>.
\<close>

theorem end_of_stream_after_frame_with_vectors:
  "map FrameIndex (snd (projr (frame_loop 16 16 1
        [(0, CHR ''I'', []),
         (1, CHR ''P'', [\<lparr>src_x = 0, src_y = 0, dst_x = 3, dst_y = 0\<rparr>])] []))) = [2]
   \<and> map FrameIndex (fst (projr (end_of_stream 16 16 (0, CHR ''?'')
        [(0, CHR ''I'', []),
         (1, CHR ''P'', [\<lparr>src_x = 0, src_y = 0, dst_x = 3, dst_y = 0\<rparr>])]
        (snd (projr (frame_loop 16 16 1
          [(0, CHR ''I'', []),
           (1, CHR ''P'', [\<lparr>src_x = 0, src_y = 0, dst_x = 3, dst_y = 0\<rparr>])] [])))))) = [2, - 1]
   \<and> map FrameIndex (projr (main_std 16 16 (0, CHR ''?'')
        [(0, CHR ''I'', []),
         (1, CHR ''P'', [\<lparr>src_x = 0, src_y = 0, dst_x = 3, dst_y = 0\<rparr>])])) = [1, 2, 2, - 1]"
  by (simp add: main_std_def end_of_stream_def output_vectors_std_def emit_pending_def
        aggregate_def assign_vector_def
        new_FrameInfo_def in_array_def target_cell_def clip_index_def grid_shape_def
        GRID_STEP_def MAX_GRID_SIZE_def signed_divide_int_def)

section \<open>Raw output\<close>

lemma digit_char_not_newline: "digit_char n \<noteq> newline"
proof -
  have "n mod 10 < length ''0123456789''"
    by simp
  then have "digit_char n \<in> set ''0123456789''"
    unfolding digit_char_def by (rule nth_mem)
  then show ?thesis
    by (auto simp: newline_def)
qed

lemma decimal_no_newline: "newline \<notin> set (decimal n)"
proof (induction n rule: decimal.induct)
  case (1 n)
  show ?case
  proof (cases "n < 10")
    case True
    then show ?thesis
      using digit_char_not_newline [of n] by (subst decimal.simps) auto
  next
    case False
    with "1" show ?thesis
      using digit_char_not_newline [of n] by (subst decimal.simps) auto
  qed
qed

lemma printf_d_no_newline: "newline \<notin> set (printf_d i)"
  using decimal_no_newline by (simp add: printf_d_def newline_def)

lemma lines_of_line:
  "newline \<notin> set xs \<Longrightarrow> lines_of acc (xs @ newline # rest) = (acc @ xs) # lines_of [] rest"
  by (induction xs arbitrary: acc) auto

text \<open>
  Claim C9. For a frame with \<open>N\<close> vectors the raw output consists of exactly \<open>1 + N\<close>
  lines: the header with the timestamp, the frame index, the picture type and \<open>N\<close>, then
  one line for each vector, in order, with its source position and its displacement. For
  \<open>N = 0\<close> the header is the only line. The picture type is printed with \<open>%c\<close>, so it
  must not be the newline character itself (\<open>av_get_picture_type_char\<close> returns a letter
  or a question mark).
\<close>

theorem raw_output_lines:
  assumes "pictType \<noteq> newline"
  shows "lines_of [] (output_vectors_raw frameIndex pts pictType mvs) =
           (''# pts='' @ printf_d pts @ '' frame_index='' @ printf_d frameIndex
              @ '' pict_type='' @ [pictType] @ '' output_type=raw shape='' @ decimal (length mvs)
              @ ''x4'')
           # map (\<lambda>mv. printf_d (src_x mv) @ [tab] @ printf_d (src_y mv) @ [tab]
                         @ printf_d (src_x mv - dst_x mv) @ [tab] @ printf_d (src_y mv - dst_y mv))
               mvs
         \<and> length (lines_of [] (output_vectors_raw frameIndex pts pictType mvs)) = 1 + length mvs"
proof -
  have vectors: "lines_of [] (raw_vector_lines ms) =
      map (\<lambda>mv. printf_d (src_x mv) @ [tab] @ printf_d (src_y mv) @ [tab]
                  @ printf_d (src_x mv - dst_x mv) @ [tab] @ printf_d (src_y mv - dst_y mv)) ms"
    for ms
  proof (induction ms)
    case Nil
    then show ?case by simp
  next
    case (Cons mv ms)
    let ?line = "printf_d (src_x mv) @ [tab] @ printf_d (src_y mv) @ [tab]
                  @ printf_d (src_x mv - dst_x mv) @ [tab] @ printf_d (src_y mv - dst_y mv)"
    have "newline \<notin> set ?line"
      using printf_d_no_newline by (simp add: tab_def newline_def)
    then have "lines_of [] (?line @ newline # raw_vector_lines ms)
                 = ([] @ ?line) # lines_of [] (raw_vector_lines ms)"
      by (rule lines_of_line)
    then show ?case
      by (simp add: raw_vector_line_def Let_def Cons.IH)
  qed
  let ?header = "''# pts='' @ printf_d pts @ '' frame_index='' @ printf_d frameIndex
              @ '' pict_type='' @ [pictType] @ '' output_type=raw shape='' @ decimal (length mvs)
              @ ''x4''"
  have "newline \<notin> set ?header"
    using printf_d_no_newline decimal_no_newline assms by (simp add: newline_def)
  then have "lines_of [] (?header @ newline # raw_vector_lines mvs)
               = ([] @ ?header) # lines_of [] (raw_vector_lines mvs)"
    by (rule lines_of_line)
  then have "lines_of [] (output_vectors_raw frameIndex pts pictType mvs) =
      ?header # map (\<lambda>mv. printf_d (src_x mv) @ [tab] @ printf_d (src_y mv) @ [tab]
                  @ printf_d (src_x mv - dst_x mv) @ [tab] @ printf_d (src_y mv - dst_y mv)) mvs"
    by (simp add: output_vectors_raw_def raw_header_def vectors)
  then show ?thesis by simp
qed

theorem raw_output_lines_witness:
  "CHR ''P'' \<noteq> newline
   \<and> lines_of [] (output_vectors_raw 7 (- 42) CHR ''P''
        [\<lparr>src_x = 24, src_y = 8, dst_x = 27, dst_y = 8\<rparr>,
         \<lparr>src_x = 110, src_y = 9, dst_x = 100, dst_y = 12\<rparr>])
     = [''# pts=-42 frame_index=7 pict_type=P output_type=raw shape=2x4'',
        ''24'' @ [tab] @ ''8'' @ [tab] @ ''-3'' @ [tab] @ ''0'',
        ''110'' @ [tab] @ ''9'' @ [tab] @ ''10'' @ [tab] @ ''-3'']
   \<and> lines_of [] (output_vectors_raw 1 0 CHR ''P'' [])
     = [''# pts=0 frame_index=1 pict_type=P output_type=raw shape=0x4'']"
proof -
  have h: "CHR ''P'' \<noteq> newline"
    by (simp add: newline_def)
  show ?thesis
    using h raw_output_lines [OF h, of 7 "- 42"
        "[\<lparr>src_x = 24, src_y = 8, dst_x = 27, dst_y = 8\<rparr>,
          \<lparr>src_x = 110, src_y = 9, dst_x = 100, dst_y = 12\<rparr>]"]
      raw_output_lines [OF h, of 1 0 "[]"]
    by (simp add: printf_d_def decimal.simps digit_char_def)
qed

section \<open>Reading packets\<close>

lemma calls_of_tuple: "calls_of (b, st, d, c, tr) = tr"
  by (simp add: calls_of_def)

lemma read_packets_initialized_no_frame:
  assumes "initialized st" and "process_frame decode (pktCopy st) d = (False, pc, d')"
  shows "read_packets decode vsi st d c tr =
           (case av_read_frame c of
              (ret, p, c') \<Rightarrow>
                if ret \<noteq> 0
                then (case process_frame decode p d' of
                        (got, p', d2) \<Rightarrow>
                          (got, st\<lparr> pktCopy := pc, pkt := p', initialized := False \<rparr>, d2, c',
                           tr @ [Decode (pktCopy st), FreePacket, ReadFrame, Decode p]))
                else if stream_index p \<noteq> vsi
                then read_packets decode vsi
                       (st\<lparr> initialized := False, pkt := av_free_packet p, pktCopy := p \<rparr>)
                       d' c' (tr @ [Decode (pktCopy st), FreePacket, ReadFrame, FreePacket])
                else read_packets decode vsi
                       (st\<lparr> initialized := True, pkt := p, pktCopy := p \<rparr>)
                       d' c' (tr @ [Decode (pktCopy st), FreePacket, ReadFrame]))"
  using assms
  by (subst read_packets.simps) (simp split: prod.splits)

lemma read_packets_initialized_frame:
  assumes "initialized st" and "process_frame decode (pktCopy st) d = (True, pc, d')"
  shows "read_packets decode vsi st d c tr =
           (True, st\<lparr> pktCopy := pc \<rparr>, d', c, tr @ [Decode (pktCopy st)])"
  using assms
  by (subst read_packets.simps) simp

lemma read_packets_uninitialized:
  assumes "\<not> initialized st"
  shows "read_packets decode vsi st d c tr =
           (case av_read_frame c of
              (ret, p, c') \<Rightarrow>
                if ret \<noteq> 0
                then (case process_frame decode p d of
                        (got, p', d2) \<Rightarrow>
                          (got, st\<lparr> pkt := p' \<rparr>, d2, c', tr @ [ReadFrame, Decode p]))
                else if stream_index p \<noteq> vsi
                then read_packets decode vsi
                       (st\<lparr> initialized := False, pkt := av_free_packet p, pktCopy := p \<rparr>)
                       d c' (tr @ [ReadFrame, FreePacket])
                else read_packets decode vsi
                       (st\<lparr> initialized := True, pkt := p, pktCopy := p \<rparr>)
                       d c' (tr @ [ReadFrame]))"
  using assms
  by (subst read_packets.simps) simp

lemma read_packets_calls_extend:
  "\<exists>rest. calls_of (read_packets decode vsi st d c tr) = tr @ rest"
proof (induction c arbitrary: st d tr)
  case Nil
  obtain got pc d' where pf: "process_frame decode (pktCopy st) d = (got, pc, d')"
    by (cases "process_frame decode (pktCopy st) d")
  show ?case
  proof (cases "initialized st")
    case False
    then show ?thesis
      by (subst read_packets_uninitialized)
         (simp_all add: calls_of_tuple AVERROR_EOF_def split: prod.splits)
  next
    case True
    show ?thesis
    proof (cases got)
      case True
      with \<open>initialized st\<close> pf show ?thesis
        by (simp add: read_packets_initialized_frame calls_of_tuple)
    next
      case False
      with \<open>initialized st\<close> pf show ?thesis
        by (subst read_packets_initialized_no_frame [where pc = pc and d' = d'])
           (simp_all add: calls_of_tuple AVERROR_EOF_def split: prod.splits)
    qed
  qed
next
  case (Cons p c)
  have ih: "\<exists>rest. calls_of (read_packets decode vsi st' d' c (tr @ xs)) = tr @ rest"
    for st' d' xs
  proof -
    obtain rest where "calls_of (read_packets decode vsi st' d' c (tr @ xs)) = (tr @ xs) @ rest"
      using Cons.IH by blast
    then show ?thesis
      by (intro exI [of _ "xs @ rest"]) simp
  qed
  obtain got pc d' where pf: "process_frame decode (pktCopy st) d = (got, pc, d')"
    by (cases "process_frame decode (pktCopy st) d")
  show ?case
  proof (cases "initialized st")
    case False
    then show ?thesis
      using ih [of _ d "[ReadFrame, FreePacket]"] ih [of _ d "[ReadFrame]"]
      by (subst read_packets_uninitialized) simp_all
  next
    case True
    show ?thesis
    proof (cases got)
      case True
      with \<open>initialized st\<close> pf show ?thesis
        by (simp add: read_packets_initialized_frame calls_of_tuple)
    next
      case False
      with \<open>initialized st\<close> pf show ?thesis
        using ih [of _ d' "[Decode (pktCopy st), FreePacket, ReadFrame, FreePacket]"]
          ih [of _ d' "[Decode (pktCopy st), FreePacket, ReadFrame]"]
        by (subst read_packets_initialized_no_frame [where pc = pc and d' = d']) simp_all
    qed
  qed
qed

text \<open>
  Claim C5, as the code has it. When \<open>read_packets\<close> is entered while a packet of the
  target stream is being drained, it feeds the packet's remaining bytes to the decoder
  once. If that attempt produces a frame, the call returns at once and keeps the packet,
  advanced by the bytes consumed, for the next call. If it produces no frame, the packet
  is freed and the next packet is requested from the container straight away, whatever
  number of bytes remain.
\<close>

theorem packet_dropped_after_attempt_without_frame:
  assumes "initialized st"
      and "process_frame decode (pktCopy st) d = (got, remaining, d')"
  shows "if got
         then read_packets decode videoStreamIndex st d c tr =
                (True, st\<lparr> pktCopy := remaining \<rparr>, d', c, tr @ [Decode (pktCopy st)])
         else (\<exists>rest. calls_of (read_packets decode videoStreamIndex st d c tr) =
                        tr @ [Decode (pktCopy st), FreePacket, ReadFrame] @ rest)"
proof (cases got)
  case True
  with assms show ?thesis
    by (simp add: read_packets_initialized_frame)
next
  case False
  let ?tr = "tr @ [Decode (pktCopy st), FreePacket, ReadFrame]"
  have "\<exists>rest. calls_of (read_packets decode videoStreamIndex st d c tr) = ?tr @ rest"
  proof (cases c)
    case Nil
    obtain g p' d2 where "process_frame decode blank_packet d' = (g, p', d2)"
      by (cases "process_frame decode blank_packet d'")
    with assms False Nil
    have "calls_of (read_packets decode videoStreamIndex st d c tr) = ?tr @ [Decode blank_packet]"
      by (subst read_packets_initialized_no_frame [where pc = remaining and d' = d'])
         (simp_all add: calls_of_tuple AVERROR_EOF_def)
    then show ?thesis by blast
  next
    case (Cons p c')
    obtain rest1 where r1: "calls_of (read_packets decode videoStreamIndex
           (st\<lparr> initialized := False, pkt := av_free_packet p, pktCopy := p \<rparr>)
           d' c' (?tr @ [FreePacket])) = (?tr @ [FreePacket]) @ rest1"
      using read_packets_calls_extend [of decode videoStreamIndex
          "st\<lparr> initialized := False, pkt := av_free_packet p, pktCopy := p \<rparr>"
          d' c' "?tr @ [FreePacket]"]
      by blast
    obtain rest2 where r2: "calls_of (read_packets decode videoStreamIndex
           (st\<lparr> initialized := True, pkt := p, pktCopy := p \<rparr>)
           d' c' ?tr) = ?tr @ rest2"
      using read_packets_calls_extend [of decode videoStreamIndex
          "st\<lparr> initialized := True, pkt := p, pktCopy := p \<rparr>" d' c' ?tr]
      by blast
    have "calls_of (read_packets decode videoStreamIndex st d c tr) =
            ?tr @ (if stream_index p \<noteq> videoStreamIndex then FreePacket # rest1 else rest2)"
      using assms False Cons r1 r2
      by (subst read_packets_initialized_no_frame [where pc = remaining and d' = d'])
         simp_all
    then show ?thesis by blast
  qed
  with False show ?thesis by simp
qed

theorem packet_dropped_after_attempt_without_frame_witness:
  "initialized \<lparr> initialized = True,
                  pkt = \<lparr> stream_index = 0, pkt_data = 1000, pkt_size = 10 \<rparr>,
                  pktCopy = \<lparr> stream_index = 0, pkt_data = 1000, pkt_size = 10 \<rparr> \<rparr>
   \<and> process_frame stalling_decoder \<lparr> stream_index = 0, pkt_data = 1000, pkt_size = 10 \<rparr> []
        = (False, \<lparr> stream_index = 0, pkt_data = 1001, pkt_size = 9 \<rparr>,
           [\<lparr> stream_index = 0, pkt_data = 1000, pkt_size = 10 \<rparr>])
   \<and> (\<exists>rest. calls_of (read_packets stalling_decoder 0
          \<lparr> initialized = True,
            pkt = \<lparr> stream_index = 0, pkt_data = 1000, pkt_size = 10 \<rparr>,
            pktCopy = \<lparr> stream_index = 0, pkt_data = 1000, pkt_size = 10 \<rparr> \<rparr>
          [] [\<lparr> stream_index = 0, pkt_data = 2000, pkt_size = 5 \<rparr>] [])
        = [Decode \<lparr> stream_index = 0, pkt_data = 1000, pkt_size = 10 \<rparr>, FreePacket, ReadFrame]
            @ rest)"
proof -
  let ?p = "\<lparr> stream_index = 0, pkt_data = 1000, pkt_size = 10 \<rparr>"
  let ?st = "\<lparr> initialized = True, pkt = ?p, pktCopy = ?p \<rparr>"
  have h1: "initialized ?st" by simp
  have h2: "process_frame stalling_decoder (pktCopy ?st) []
        = (False, \<lparr> stream_index = 0, pkt_data = 1001, pkt_size = 9 \<rparr>, [?p])"
    by (simp add: process_frame_def stalling_decoder_def)
  from packet_dropped_after_attempt_without_frame [OF h1 h2, of 0
      "[\<lparr> stream_index = 0, pkt_data = 2000, pkt_size = 5 \<rparr>]" "[]"]
  show ?thesis
    using h2 by simp
qed

text \<open>
  A packet is not always drained (claim C5). The container holds one packet of 10 bytes
  of the target stream, and the decoder consumes one byte of it without producing a
  frame. Nine bytes remain, but the packet is freed and the container is read again; the
  decoder is given the whole packet once and then the blank packet of the final attempt,
  never the remaining nine bytes.
\<close>

theorem packet_drained_counterexample:
  "read_packets stalling_decoder 0 fresh_reader []
      [\<lparr> stream_index = 0, pkt_data = 1000, pkt_size = 10 \<rparr>] []
   = (False,
      \<lparr> initialized = False, pkt = blank_packet,
        pktCopy = \<lparr> stream_index = 0, pkt_data = 1001, pkt_size = 9 \<rparr> \<rparr>,
      [\<lparr> stream_index = 0, pkt_data = 1000, pkt_size = 10 \<rparr>, blank_packet],
      [],
      [ReadFrame, Decode \<lparr> stream_index = 0, pkt_data = 1000, pkt_size = 10 \<rparr>, FreePacket,
       ReadFrame, Decode blank_packet])"
  by (simp add: read_packets.simps process_frame_def stalling_decoder_def fresh_reader_def
        av_free_packet_def blank_packet_def AVERROR_EOF_def)

end
